theory Spec2Isabelle
  imports Complex_Main "HOL-Library.Log_Nat"
begin

section \<open>wgettos: download a URL with an optional TOS byte\<close>

text \<open>
  The program is one function, \<^verbatim>\<open>download_with_speed(url, custom_tos, output)\<close>, in
  \<^verbatim>\<open>wgettos.py\<close>. It talks to four things outside itself: the clock
  (\<^verbatim>\<open>time.time()\<close>), the HTTP client (\<^verbatim>\<open>urllib3\<close>), the file system and standard
  output. The embedding passes the state of the local variables explicitly, takes the
  answers of the outside world as arguments, and records what the program does to the
  outside world as a list of events, in the order of the calls.

  A Python float is a binary double. It is modelled by the rational number it stands
  for, and every arithmetic operation of the program on floats rounds its exact result
  to the nearest double, ties to the even mantissa, as the hardware does.
\<close>

subsection \<open>Python values\<close>

type_synonym bytes = "char list"

datatype error =
    ZeroDivisionError  \<comment> \<open>\<^verbatim>\<open>int / float\<close> with a zero divisor\<close>
  | ValueError         \<comment> \<open>\<^verbatim>\<open>int(s)\<close> on a string that is no integer literal\<close>
  | HTTPError          \<comment> \<open>whatever \<^verbatim>\<open>manager.request\<close> raises\<close>
  | OSError            \<comment> \<open>whatever \<^verbatim>\<open>open\<close> raises\<close>

text \<open>Rounding to the nearest integer, ties to the even one.\<close>

definition round_half_even :: "rat \<Rightarrow> int" where
  "round_half_even x =
     (let f = \<lfloor>x\<rfloor>; d = x - of_int f
      in if d < 1 / 2 then f
         else if 1 / 2 < d then f + 1
         else if even f then f else f + 1)"

subsection \<open>Floats\<close>

text \<open>
  The doubles between \<open>2^e\<close> and \<open>2^(e+1)\<close> are the multiples of \<open>2^(e-52)\<close>, and the
  subnormal ones the multiples of \<open>2^(-1074)\<close>. \<open>ilog2 x\<close> is the exponent \<open>e\<close> of a
  positive \<open>x\<close>, \<open>quantum x\<close> the spacing of the doubles around \<open>x\<close>, and \<open>fl x\<close> the
  double nearest to \<open>x\<close>. The exponent is not bounded above: the numbers of a run
  (seconds, byte counts and their quotients) stay far below the largest double, and
  infinities and NaN are not modelled. Nor is the sign of zero.
\<close>

definition pow2 :: "int \<Rightarrow> rat" where
  "pow2 k = (if 0 \<le> k then 2 ^ nat k else 1 / 2 ^ nat (- k))"

definition ilog2 :: "rat \<Rightarrow> int" where
  "ilog2 x =
     (let (p, q) = quotient_of x;
          k = bitlen p - bitlen q
      in if pow2 k \<le> x then k else k - 1)"

definition quantum :: "rat \<Rightarrow> rat" where
  "quantum x = pow2 (max (ilog2 \<bar>x\<bar> - 52) (- 1074))"

definition fl :: "rat \<Rightarrow> rat" where
  "fl x = of_int (round_half_even (x / quantum x)) * quantum x"

text \<open>The operations \<^verbatim>\<open>a + b\<close>, \<^verbatim>\<open>a - b\<close>, \<^verbatim>\<open>a * b\<close> and \<^verbatim>\<open>a / b\<close> on floats.\<close>

definition float_add :: "rat \<Rightarrow> rat \<Rightarrow> rat" where
  "float_add a b = fl (a + b)"

definition float_sub :: "rat \<Rightarrow> rat \<Rightarrow> rat" where
  "float_sub a b = fl (a - b)"

definition float_mul :: "rat \<Rightarrow> rat \<Rightarrow> rat" where
  "float_mul a b = fl (a * b)"

definition float_div :: "rat \<Rightarrow> rat \<Rightarrow> rat" where
  "float_div a b = fl (a / b)"

text \<open>The conversion of an int to a float, as the mixed operations do it.\<close>

definition int_to_float :: "int \<Rightarrow> rat" where
  "int_to_float i = fl (of_int i)"

text \<open>
  True division \<^verbatim>\<open>a / b\<close> of an int by a float: the int is converted, and a zero
  divisor raises.
\<close>

definition py_truediv :: "int \<Rightarrow> rat \<Rightarrow> error + rat" where
  "py_truediv a b =
     (if b = 0 then Inl ZeroDivisionError else Inr (float_div (int_to_float a) b))"

text \<open>
  True division \<^verbatim>\<open>a / b\<close> of an int by an int: the exact quotient, rounded once.
  The program's one division of this kind is guarded by \<^verbatim>\<open>size > 0\<close>, so its
  divisor is never zero.
\<close>

definition int_truediv :: "int \<Rightarrow> int \<Rightarrow> rat" where
  "int_truediv a b = fl (of_int a / of_int b)"

subsection \<open>Strings\<close>

text \<open>\<^verbatim>\<open>str(n)\<close> for a natural number: its decimal digits.\<close>

fun show_nat :: "nat \<Rightarrow> string" where
  "show_nat n =
     (if n < 10 then [''0123456789'' ! n]
      else show_nat (n div 10) @ [''0123456789'' ! (n mod 10)])"

declare show_nat.simps [simp del]

text \<open>
  The format specification \<^verbatim>\<open>3.0f\<close>: no digits after the point (and then no point),
  the value rounded to the nearest integer, ties to the even one, a minus sign for a
  negative number, padded with blanks on the left to three characters.
\<close>

definition format_3_0f :: "rat \<Rightarrow> string" where
  "format_3_0f x =
     (let s = (if x < 0 then ''-'' else '''') @ show_nat (nat (round_half_even \<bar>x\<bar>))
      in replicate (3 - length s) (CHR '' '') @ s)"

text \<open>
  \<^verbatim>\<open>int(s)\<close> on a string of Latin-1 characters (the characters of an HTTP header
  value): blanks are stripped at both ends, one sign may follow, then decimal digits,
  where single underscores may separate digits. Everything else is a \<^verbatim>\<open>ValueError\<close>,
  and so is a literal of more digits than the interpreter's limit, which the program
  leaves at its default of 4300. The blanks are the ASCII ones (tab, line feed,
  vertical tab, form feed, carriage return, space) and the two Latin-1 blanks above
  127, which the conversion turns into spaces first.
\<close>

definition is_space :: "char \<Rightarrow> bool" where
  "is_space c =
     (let n = (of_char c :: nat)
      in (9 \<le> n \<and> n \<le> 13) \<or> n = 32 \<or> n = 133 \<or> n = 160)"

definition max_str_digits :: nat where
  "max_str_digits = 4300"

definition is_digit :: "char \<Rightarrow> bool" where
  "is_digit c = (let n = (of_char c :: nat) in 48 \<le> n \<and> n \<le> 57)"

definition digit_val :: "char \<Rightarrow> nat" where
  "digit_val c = (of_char c :: nat) - 48"

fun digits_val :: "nat \<Rightarrow> string \<Rightarrow> nat option" where
  "digits_val acc [] = Some acc"
| "digits_val acc (c # cs) =
     (if is_digit c then digits_val (acc * 10 + digit_val c) cs
      else if c = CHR ''_'' then
        (case cs of
           [] \<Rightarrow> None
         | d # ds \<Rightarrow> if is_digit d then digits_val acc cs else None)
      else None)"

definition unsigned_val :: "string \<Rightarrow> nat option" where
  "unsigned_val s =
     (case s of
        [] \<Rightarrow> None
      | c # cs \<Rightarrow> if is_digit c then digits_val 0 s else None)"

definition strip :: "string \<Rightarrow> string" where
  "strip s = rev (dropWhile is_space (rev (dropWhile is_space s)))"

definition py_int :: "string \<Rightarrow> error + int" where
  "py_int s =
     (let t = strip s;
          (neg, body) =
            (case t of
               [] \<Rightarrow> (False, t)
             | c # cs \<Rightarrow>
                 if c = CHR ''-'' then (True, cs)
                 else if c = CHR ''+'' then (False, cs)
                 else (False, t))
      in case unsigned_val body of
           None \<Rightarrow> Inl ValueError
         | Some n \<Rightarrow>
             if max_str_digits < length (filter is_digit body) then Inl ValueError
             else Inr (if neg then - int n else int n))"

text \<open>
  \<^verbatim>\<open>os.path.basename(p)\<close> (the POSIX one): everything after the last slash, the whole
  string when there is none.
\<close>

definition basename :: "string \<Rightarrow> string" where
  "basename p = rev (takeWhile (\<lambda>c. c \<noteq> CHR ''/'') (rev p))"

subsection \<open>The outside world\<close>

text \<open>
  A response is what the program reads of it: its headers, looked up by name (the map
  stands for the lookup of the header dictionary, which ignores the case of the name),
  and the chunks that \<^verbatim>\<open>response.stream(1024)\<close> yields. Each chunk comes with the
  value that \<^verbatim>\<open>time.time()\<close> returns in the iteration of the loop that handles it;
  a clock reading is the rational value of the double returned.
  Failures of the network in the middle of the stream and failures of
  \<^verbatim>\<open>file.write\<close> are not modelled: the stream is the list of the chunks that arrive
  and are written.
\<close>

type_synonym arrival = "bytes \<times> rat"

record response =
  headers :: "string \<rightharpoonup> string"
  stream :: "arrival list"

record env =
  request :: "string \<Rightarrow> error + response"
    \<comment> \<open>\<^verbatim>\<open>manager.request('GET', url, preload_content=False)\<close>\<close>
  time_at_start :: rat
    \<comment> \<open>\<^verbatim>\<open>time.time()\<close> in the first line of the function\<close>
  time_at_end :: rat
    \<comment> \<open>\<^verbatim>\<open>time.time()\<close> after the response and the file are closed\<close>
  can_open :: "string \<Rightarrow> bool"
    \<comment> \<open>whether \<^verbatim>\<open>open(filename, 'wb')\<close> succeeds\<close>

text \<open>
  The lines the program prints, by the values their format strings interpolate:
  \<^item> \<open>Progress\<close>: \<^verbatim>\<open>Downloaded: {downloaded_bytes}{content_length} bytes {percent}| Speed: {download_speed:9.2f} bytes/sec\<close>, ended by a carriage return;
  \<^item> \<open>Summary\<close>: \<^verbatim>\<open>Downloaded: {downloaded_bytes} bytes in {elapsed_time:.2f} seconds| Speed: {download_speed:.2f} bytes/sec\<close>, after a newline;
  \<^item> \<open>Saved\<close>: \<^verbatim>\<open>File saved as: {filename}\<close>.
\<close>

datatype line =
    Progress int string string rat
  | Summary int rat rat
  | Saved string

text \<open>
  What the program does to the outside world. A \<open>Print\<close> carries, beside the line,
  the value the variable \<^verbatim>\<open>elapsed_time\<close> holds when the line is printed (every
  \<^verbatim>\<open>print\<close> of the program comes after an assignment to it).
\<close>

datatype event =
    Open string
  | Print rat line
  | Write bytes

subsection \<open>The state of the function\<close>

type_synonym socket_option = "int \<times> int \<times> int"

record pool_manager =
  connection_pool_kw :: "string \<rightharpoonup> socket_option list"

text \<open>The constants of the \<^verbatim>\<open>socket\<close> module, with their values on Linux.\<close>

definition IPPROTO_IP :: int where "IPPROTO_IP = 0"
definition IP_TOS :: int where "IP_TOS = 1"

record state =
  manager :: pool_manager
  start_time :: rat
  downloaded_bytes :: int
  displayed_time :: rat
  content_length :: string
  percent :: string
  size_py :: int  \<comment> \<open>the variable \<^verbatim>\<open>size\<close>\<close>
  trace :: "event list"
  exn :: "error option"  \<comment> \<open>the exception that ended the run, if one did\<close>

text \<open>\<^verbatim>\<open>urllib3.PoolManager()\<close> called without arguments keeps no keyword for its pools.\<close>

definition PoolManager :: pool_manager where
  "PoolManager = \<lparr>connection_pool_kw = Map.empty\<rparr>"

text \<open>Lines 38 and 39: the socket option is set when \<^verbatim>\<open>custom_tos is not None\<close>.\<close>

definition set_custom_tos :: "int option \<Rightarrow> pool_manager \<Rightarrow> pool_manager" where
  "set_custom_tos custom_tos m =
     (case custom_tos of
        None \<Rightarrow> m
      | Some t \<Rightarrow>
          m\<lparr>connection_pool_kw :=
               (connection_pool_kw m)(''socket_options'' \<mapsto> [(IPPROTO_IP, IP_TOS, t)])\<rparr>)"

text \<open>Lines 26 to 39.\<close>

definition initial_state :: "env \<Rightarrow> int option \<Rightarrow> state" where
  "initial_state e custom_tos =
     \<lparr>manager = set_custom_tos custom_tos PoolManager,
      start_time = time_at_start e,
      downloaded_bytes = 0,
      displayed_time = 0,
      content_length = '''',
      percent = '' ??%'',
      size_py = 0,
      trace = [],
      exn = None\<rparr>"

text \<open>
  Line 44, \<^verbatim>\<open>output or os.path.basename(url)\<close>: \<^verbatim>\<open>or\<close> takes its right operand when
  the left one is \<^verbatim>\<open>None\<close> or the empty string.
\<close>

definition filename_of :: "string \<Rightarrow> string option \<Rightarrow> string" where
  "filename_of url output =
     (case output of
        None \<Rightarrow> basename url
      | Some s \<Rightarrow> if s = [] then basename url else s)"

text \<open>Lines 45 to 47.\<close>

definition read_content_length :: "response \<Rightarrow> state \<Rightarrow> state" where
  "read_content_length r st =
     (case headers r ''Content-Length'' of
        None \<Rightarrow> st
      | Some v \<Rightarrow>
          (let st1 = st\<lparr>content_length := ''/'' @ v\<rparr>
           in case py_int v of
                Inl err \<Rightarrow> st1\<lparr>exn := Some err\<rparr>
              | Inr n \<Rightarrow> st1\<lparr>size_py := n\<rparr>))"

text \<open>
  Lines 57 and 58: \<^verbatim>\<open>downloaded_bytes / size * 100\<close>, a division of ints and a
  multiplication of floats, formatted by \<^verbatim>\<open>3.0f\<close> and followed by a percent sign.
\<close>

definition percent_text :: "int \<Rightarrow> int \<Rightarrow> string" where
  "percent_text d s = format_3_0f (float_mul (int_truediv d s) 100) @ ''%''"

text \<open>
  Lines 55 to 61, the body of \<^verbatim>\<open>if elapsed_time >= displayed_time\<close>: the percentage
  is formatted first, then the throughput is computed, then the line is printed and the
  next display time is set.
\<close>

definition show_status :: "rat \<Rightarrow> state \<Rightarrow> state" where
  "show_status elapsed_time st =
     (let st1 =
            (if 0 < size_py st
             then st\<lparr>percent := percent_text (downloaded_bytes st) (size_py st)\<rparr>
             else st)
      in case py_truediv (downloaded_bytes st1) elapsed_time of
           Inl err \<Rightarrow> st1\<lparr>exn := Some err\<rparr>
         | Inr download_speed \<Rightarrow>
             st1\<lparr>trace := trace st1 @
                    [Print elapsed_time
                       (Progress (downloaded_bytes st1) (content_length st1) (percent st1)
                          download_speed)],
                 displayed_time := float_add elapsed_time (1 / 2)\<rparr>)"

text \<open>Line 64.\<close>

definition file_write :: "bytes \<Rightarrow> state \<Rightarrow> state" where
  "file_write chunk st = st\<lparr>trace := trace st @ [Write chunk]\<rparr>"

text \<open>Lines 52 to 64: one iteration of the loop. An exception leaves it at once.\<close>

definition chunk_step :: "state \<Rightarrow> arrival \<Rightarrow> state" where
  "chunk_step st a =
     (case a of (chunk, now) \<Rightarrow>
        (let st1 = st\<lparr>downloaded_bytes := downloaded_bytes st + int (length chunk)\<rparr>;
             elapsed_time = float_sub now (start_time st1);
             st2 = (if displayed_time st1 \<le> elapsed_time
                    then show_status elapsed_time st1 else st1)
         in if exn st2 = None then file_write chunk st2 else st2))"

text \<open>Line 51: the loop over the chunks; an exception in an iteration ends it.\<close>

fun chunk_loop :: "state \<Rightarrow> arrival list \<Rightarrow> state" where
  "chunk_loop st [] = st"
| "chunk_loop st (a # as) =
     (if exn st = None then chunk_loop (chunk_step st a) as else st)"

text \<open>Lines 68 to 71.\<close>

definition final_status :: "env \<Rightarrow> string \<Rightarrow> state \<Rightarrow> state" where
  "final_status e filename st =
     (let elapsed_time = float_sub (time_at_end e) (start_time st)
      in case py_truediv (downloaded_bytes st) elapsed_time of
           Inl err \<Rightarrow> st\<lparr>exn := Some err\<rparr>
         | Inr download_speed \<Rightarrow>
             st\<lparr>trace := trace st @
                   [Print elapsed_time (Summary (downloaded_bytes st) elapsed_time download_speed),
                    Print elapsed_time (Saved filename)]\<rparr>)"

text \<open>
  The whole function. \<^verbatim>\<open>open('')\<close> raises whatever the file system looks like.
  The result is the state when the function returns or when an exception leaves it.
\<close>

definition download_with_speed ::
  "env \<Rightarrow> string \<Rightarrow> int option \<Rightarrow> string option \<Rightarrow> state" where
  "download_with_speed e url custom_tos output =
     (let st = initial_state e custom_tos
      in case request e url of
           Inl err \<Rightarrow> st\<lparr>exn := Some err\<rparr>
         | Inr r \<Rightarrow>
             (let filename = filename_of url output;
                  st1 = read_content_length r st
              in if exn st1 \<noteq> None then st1
                 else if filename = [] \<or> \<not> can_open e filename
                 then st1\<lparr>exn := Some OSError\<rparr>
                 else
                   (let st2 = chunk_loop (st1\<lparr>trace := trace st1 @ [Open filename]\<rparr>) (stream r)
                    in if exn st2 \<noteq> None then st2
                       else final_status e filename st2)))"

subsection \<open>Observations on the events\<close>

text \<open>The bytes written to the destination file, in the order of the writes.\<close>

fun written :: "event list \<Rightarrow> bytes" where
  "written [] = []"
| "written (Write chunk # es) = chunk @ written es"
| "written (_ # es) = written es"

text \<open>
  The progress lines printed, in order: the elapsed time at the print, then the four
  values the line shows (bytes downloaded, the \<^verbatim>\<open>/total\<close> text, the percentage
  field, the throughput).
\<close>

fun progress_lines :: "event list \<Rightarrow> (rat \<times> int \<times> string \<times> string \<times> rat) list" where
  "progress_lines [] = []"
| "progress_lines (Print t (Progress d c p s) # es) = (t, d, c, p, s) # progress_lines es"
| "progress_lines (_ # es) = progress_lines es"

text \<open>The summary lines printed: bytes downloaded, elapsed time, throughput.\<close>

fun summary_lines :: "event list \<Rightarrow> (int \<times> rat \<times> rat) list" where
  "summary_lines [] = []"
| "summary_lines (Print t (Summary d el s) # es) = (d, el, s) # summary_lines es"
| "summary_lines (_ # es) = summary_lines es"

text \<open>The percentage fields of the progress lines, and the elapsed times at their prints.\<close>

definition percent_fields :: "event list \<Rightarrow> string list" where
  "percent_fields tr = map (\<lambda>(t, d, c, p, s). p) (progress_lines tr)"

definition progress_times :: "event list \<Rightarrow> rat list" where
  "progress_times tr = map fst (progress_lines tr)"

text \<open>
  Two invariants of the loop. The first: each progress line printed so far is at a
  positive elapsed time, which is at least the float sum of the elapsed time of the line
  before it and one half; and the next display time is 0 before the first line and that
  float sum for the last line after it. The second: no positive size was declared, the
  variable \<^verbatim>\<open>percent\<close> still holds its initial text, and so does every progress
  line printed so far.
\<close>

definition cadence :: "state \<Rightarrow> bool" where
  "cadence st =
     (successively (\<lambda>a b. float_add a (1 / 2) \<le> b) (progress_times (trace st))
      \<and> (\<forall>t\<in>set (progress_times (trace st)). 0 < t)
      \<and> displayed_time st =
          (if progress_times (trace st) = [] then 0
           else float_add (last (progress_times (trace st))) (1 / 2)))"

definition size_unknown :: "state \<Rightarrow> bool" where
  "size_unknown st =
     (size_py st \<le> 0 \<and> percent st = '' ??%''
      \<and> (\<forall>p\<in>set (percent_fields (trace st)). p = '' ??%''))"

subsection \<open>The words of the specification\<close>

text \<open>
  The specification speaks of the path of a URL. In a URL the path ends where the query
  (\<^verbatim>\<open>?\<close>) or the fragment (\<^verbatim>\<open>#\<close>) begins; this is the URL up to there.
\<close>

definition url_upto_query :: "string \<Rightarrow> string" where
  "url_upto_query url = takeWhile (\<lambda>c. c \<noteq> CHR ''?'' \<and> c \<noteq> CHR ''#'') url"

text \<open>
  The specification orders the steps of an iteration. An event \<open>a\<close> occurs before an
  event \<open>b\<close> in a list of events when \<open>b\<close> is found after the first \<open>a\<close>.
\<close>

definition occurs_before :: "event \<Rightarrow> event \<Rightarrow> event list \<Rightarrow> bool" where
  "occurs_before a b tr = (b \<in> set (drop 1 (dropWhile (\<lambda>x. x \<noteq> a) tr)))"

subsection \<open>Concrete runs\<close>

text \<open>
  A response with an empty body, on a clock that returns the same value at the start
  and at the end of the function (a coarse clock, or a fast local transfer).
\<close>

definition empty_body :: response where
  "empty_body = \<lparr>headers = Map.empty, stream = []\<rparr>"

definition instant_env :: env where
  "instant_env =
     \<lparr>request = (\<lambda>url. Inr empty_body),
      time_at_start = 1700000000, time_at_end = 1700000000,
      can_open = (\<lambda>f. True)\<rparr>"

text \<open>A first chunk that is handled while the clock still shows the starting value.\<close>

definition fast_chunk :: response where
  "fast_chunk = \<lparr>headers = Map.empty, stream = [(''abc'', 1700000000)]\<rparr>"

definition fast_chunk_env :: env where
  "fast_chunk_env =
     \<lparr>request = (\<lambda>url. Inr fast_chunk),
      time_at_start = 1700000000, time_at_end = 1700000001,
      can_open = (\<lambda>f. True)\<rparr>"

text \<open>
  Seven bytes in three chunks, handled 0.125, 0.25 and 1 second after the start; the
  function is left 2 seconds after the start.
\<close>

definition seven_bytes :: response where
  "seven_bytes =
     \<lparr>headers = [''Content-Length'' \<mapsto> ''7''],
      stream = [(''abc'', 801 / 8), (''def'', 401 / 4), (''g'', 101)]\<rparr>"

definition sample_env :: env where
  "sample_env =
     \<lparr>request = (\<lambda>url. Inr seven_bytes),
      time_at_start = 100, time_at_end = 102,
      can_open = (\<lambda>f. True)\<rparr>"

text \<open>
  A thousand bytes, declared as such, in four chunks of 250 bytes, one a second.
\<close>

definition quarter_chunk :: bytes where
  "quarter_chunk = replicate 250 (CHR ''x'')"

definition thousand_bytes :: response where
  "thousand_bytes =
     \<lparr>headers = [''Content-Length'' \<mapsto> ''1000''],
      stream = [(quarter_chunk, 101), (quarter_chunk, 102),
                (quarter_chunk, 103), (quarter_chunk, 104)]\<rparr>"

definition thousand_env :: env where
  "thousand_env =
     \<lparr>request = (\<lambda>url. Inr thousand_bytes),
      time_at_start = 100, time_at_end = 105,
      can_open = (\<lambda>f. True)\<rparr>"

text \<open>Six bytes in two chunks, from a response that declares no size.\<close>

definition no_length :: response where
  "no_length = \<lparr>headers = Map.empty, stream = [(''abc'', 801 / 8), (''def'', 101)]\<rparr>"

definition no_length_env :: env where
  "no_length_env =
     \<lparr>request = (\<lambda>url. Inr no_length),
      time_at_start = 100, time_at_end = 102,
      can_open = (\<lambda>f. True)\<rparr>"

text \<open>
  The same body from a response that declares the size 0 (a chunked response that
  carries a \<^verbatim>\<open>Content-Length: 0\<close> header all the same).
\<close>

definition zero_length :: response where
  "zero_length =
     \<lparr>headers = [''Content-Length'' \<mapsto> ''0'', ''Transfer-Encoding'' \<mapsto> ''chunked''],
      stream = [(''abc'', 801 / 8), (''def'', 101)]\<rparr>"

definition zero_length_env :: env where
  "zero_length_env =
     \<lparr>request = (\<lambda>url. Inr zero_length),
      time_at_start = 100, time_at_end = 102,
      can_open = (\<lambda>f. True)\<rparr>"

text \<open>
  A simulated clock that starts at 0.0 and is read at 0.2 and at 0.7, that is at the
  doubles nearest to these, while two chunks are handled.
\<close>

definition simulated :: response where
  "simulated = \<lparr>headers = Map.empty, stream = [(''abc'', fl (1 / 5)), (''def'', fl (7 / 10))]\<rparr>"

definition simulated_env :: env where
  "simulated_env =
     \<lparr>request = (\<lambda>url. Inr simulated),
      time_at_start = 0, time_at_end = 1,
      can_open = (\<lambda>f. True)\<rparr>"

section \<open>Properties\<close>

subsection \<open>Rounding\<close>

lemma pow2_powi: "pow2 k = 2 powi k"
  by (simp add: pow2_def power_int_def inverse_eq_divide power_one_over)

lemma pow2_pos: "0 < pow2 k"
  by (simp add: pow2_powi)

lemma pow2_add: "pow2 (a + b) = pow2 a * pow2 b"
  by (simp add: pow2_powi power_int_add)

lemma pow2_mono: "a \<le> b \<Longrightarrow> pow2 a \<le> pow2 b"
  by (simp add: pow2_powi power_int_increasing)

lemma quantum_pos: "0 < quantum x"
  by (simp add: quantum_def pow2_pos)

lemma round_half_even_error: "\<bar>of_int (round_half_even y) - y\<bar> \<le> 1 / 2"
proof -
  have "of_int \<lfloor>y\<rfloor> \<le> y" "y < of_int \<lfloor>y\<rfloor> + 1" by linarith+
  then show ?thesis
    by (auto simp: round_half_even_def Let_def abs_le_iff)
qed

lemma round_half_even_nonneg: "0 \<le> y \<Longrightarrow> 0 \<le> round_half_even y"
  by (auto simp: round_half_even_def Let_def)

text \<open>Rounding keeps a number that is not negative so, and moves it by at most half a spacing.\<close>

lemma fl_nonneg: "0 \<le> x \<Longrightarrow> 0 \<le> fl x"
proof -
  assume "0 \<le> x"
  then have "0 \<le> x / quantum x" using quantum_pos [of x] by simp
  then have "0 \<le> round_half_even (x / quantum x)" by (rule round_half_even_nonneg)
  then show ?thesis using quantum_pos [of x] by (simp add: fl_def)
qed

lemma fl_error: "\<bar>fl x - x\<bar> \<le> quantum x / 2"
proof -
  let ?q = "quantum x"
  have q: "0 < ?q" by (rule quantum_pos)
  have "fl x - x = (of_int (round_half_even (x / ?q)) - x / ?q) * ?q"
    using q by (simp add: fl_def algebra_simps)
  then have "\<bar>fl x - x\<bar> = \<bar>of_int (round_half_even (x / ?q)) - x / ?q\<bar> * ?q"
    using q by (simp add: abs_mult)
  also have "\<dots> \<le> (1 / 2) * ?q"
    using round_half_even_error [of "x / ?q"] q by (intro mult_right_mono) simp_all
  finally show ?thesis by simp
qed

text \<open>The exponent of a positive number is the one the binary notation gives it.\<close>

lemma ilog2_bounds:
  assumes "0 < x"
  shows "pow2 (ilog2 x) \<le> x" and "x < pow2 (ilog2 x + 1)"
proof -
  obtain p q where pq: "quotient_of x = (p, q)" by (cases "quotient_of x")
  then have q: "0 < q" by (rule quotient_of_denom_pos)
  from pq have x: "x = of_int p / of_int q" by (rule quotient_of_div)
  with assms q have p: "0 < p" by (simp add: zero_less_divide_iff)
  let ?k = "bitlen p - bitlen q"
  from bitlen_bounds [OF p] have p1: "(2::rat) ^ nat (bitlen p - 1) \<le> of_int p"
    and p2: "of_int p < (2::rat) ^ nat (bitlen p)"
    by (metis of_int_le_iff of_int_numeral of_int_power,
        metis of_int_less_iff of_int_numeral of_int_power)
  from bitlen_bounds [OF q] have q1: "(2::rat) ^ nat (bitlen q - 1) \<le> of_int q"
    and q2: "of_int q < (2::rat) ^ nat (bitlen q)"
    by (metis of_int_le_iff of_int_numeral of_int_power,
        metis of_int_less_iff of_int_numeral of_int_power)
  have bp: "1 \<le> bitlen p" and bq: "1 \<le> bitlen q"
    using p q by (simp_all add: bitlen_alt_def)
  have P1: "pow2 (bitlen p - 1) \<le> of_int p" and P2: "of_int p < pow2 (bitlen p)"
    and Q1: "pow2 (bitlen q - 1) \<le> of_int q" and Q2: "of_int q < pow2 (bitlen q)"
    using p1 p2 q1 q2 bp bq by (simp_all add: pow2_def)
  have low: "pow2 (?k - 1) \<le> x"
  proof -
    have "pow2 (?k - 1) * of_int q \<le> pow2 (?k - 1) * pow2 (bitlen q)"
      using Q2 pow2_pos [of "?k - 1"] by (intro mult_left_mono) simp_all
    also have "\<dots> = pow2 (bitlen p - 1)"
      by (simp add: pow2_add [symmetric])
    also note P1
    finally show ?thesis using q by (simp add: x pos_le_divide_eq)
  qed
  have up: "x < pow2 (?k + 1)"
  proof -
    note P2
    also have "pow2 (bitlen p) = pow2 (?k + 1) * pow2 (bitlen q - 1)"
      by (simp add: pow2_add [symmetric])
    also have "\<dots> \<le> pow2 (?k + 1) * of_int q"
      using Q1 pow2_pos [of "?k + 1"] by (intro mult_left_mono) simp_all
    finally show ?thesis using q by (simp add: x pos_divide_less_eq)
  qed
  show "pow2 (ilog2 x) \<le> x"
    using low by (simp add: ilog2_def pq Let_def)
  show "x < pow2 (ilog2 x + 1)"
    using up by (auto simp: ilog2_def pq Let_def not_le)
qed

text \<open>From one half on, the spacing of the doubles is at most \<open>2^(-52)\<close> of the number.\<close>

lemma quantum_relative:
  assumes "1 / 2 \<le> x"
  shows "quantum x \<le> x / 2 ^ 52"
proof -
  from assms have pos: "0 < x" by simp
  have "pow2 (- 1) \<le> x" using assms by (simp add: pow2_def)
  also have "x < pow2 (ilog2 x + 1)" by (rule ilog2_bounds [OF pos])
  finally have lt: "pow2 (- 1) < pow2 (ilog2 x + 1)" .
  have "- 1 < ilog2 x + 1"
  proof (rule ccontr)
    assume "\<not> - 1 < ilog2 x + 1"
    then have "ilog2 x + 1 \<le> - 1" by simp
    then have "pow2 (ilog2 x + 1) \<le> pow2 (- 1)" by (rule pow2_mono)
    with lt show False by simp
  qed
  then have "max (ilog2 x - 52) (- 1074) = ilog2 x - 52" by simp
  with pos have "quantum x = pow2 (ilog2 x + (- 52))" by (simp add: quantum_def)
  also have "\<dots> = pow2 (ilog2 x) / 2 ^ 52" by (simp only: pow2_add) (simp add: pow2_def)
  also have "\<dots> \<le> x / 2 ^ 52"
    using ilog2_bounds(1) [OF pos] by (simp add: divide_right_mono)
  finally show ?thesis .
qed

text \<open>
  So the float sum of a number that is not negative and one half falls short of the
  exact sum by at most \<open>2^(-53)\<close> of it.
\<close>

lemma float_add_half_lower:
  assumes "0 \<le> a"
  shows "(a + 1 / 2) * (1 - 1 / 2 ^ 53) \<le> float_add a (1 / 2)"
proof -
  from assms have h: "1 / 2 \<le> a + 1 / 2" by simp
  have "(a + 1 / 2) - fl (a + 1 / 2) \<le> \<bar>fl (a + 1 / 2) - (a + 1 / 2)\<bar>" by simp
  also have "\<dots> \<le> quantum (a + 1 / 2) / 2" by (rule fl_error)
  also have "\<dots> \<le> ((a + 1 / 2) / 2 ^ 52) / 2"
    using quantum_relative [OF h] by simp
  finally show ?thesis by (simp add: float_add_def algebra_simps)
qed

subsection \<open>One display, one iteration, the loop\<close>

lemma written_append: "written (xs @ ys) = written xs @ written ys"
  by (induction xs rule: written.induct) simp_all

lemma progress_lines_append: "progress_lines (xs @ ys) = progress_lines xs @ progress_lines ys"
  by (induction xs rule: progress_lines.induct) simp_all

lemma summary_lines_append: "summary_lines (xs @ ys) = summary_lines xs @ summary_lines ys"
  by (induction xs rule: summary_lines.induct) simp_all

lemma show_status_trace:
  "trace (show_status t st) =
     trace st @
       (if t = 0 then []
        else [Print t (Progress (downloaded_bytes st) (content_length st)
                (if 0 < size_py st
                 then percent_text (downloaded_bytes st) (size_py st)
                 else percent st)
                (float_div (int_to_float (downloaded_bytes st)) t))])"
  by (simp add: show_status_def py_truediv_def Let_def)

lemma show_status_exn:
  "exn (show_status t st) = (if t = 0 then Some ZeroDivisionError else exn st)"
  by (simp add: show_status_def py_truediv_def Let_def)

lemma show_status_same:
  "downloaded_bytes (show_status t st) = downloaded_bytes st"
  "start_time (show_status t st) = start_time st"
  "size_py (show_status t st) = size_py st"
  "content_length (show_status t st) = content_length st"
  "manager (show_status t st) = manager st"
  by (simp_all add: show_status_def py_truediv_def Let_def)

lemma show_status_displayed_time:
  "displayed_time (show_status t st) = (if t = 0 then displayed_time st else float_add t (1 / 2))"
  by (simp add: show_status_def py_truediv_def Let_def)

lemma show_status_percent:
  "percent (show_status t st) =
     (if 0 < size_py st
      then percent_text (downloaded_bytes st) (size_py st)
      else percent st)"
  by (simp add: show_status_def py_truediv_def Let_def)

lemma chunk_step_same:
  "start_time (chunk_step st a) = start_time st"
  "size_py (chunk_step st a) = size_py st"
  "content_length (chunk_step st a) = content_length st"
  "manager (chunk_step st a) = manager st"
  by (simp_all add: chunk_step_def file_write_def show_status_same Let_def split: prod.split)

lemma chunk_step_downloaded_bytes:
  "downloaded_bytes (chunk_step st (chunk, now)) = downloaded_bytes st + int (length chunk)"
  by (simp add: chunk_step_def file_write_def show_status_same Let_def)

lemma chunk_step_exn:
  "exn st = None \<Longrightarrow>
   exn (chunk_step st (chunk, now)) =
     (if displayed_time st \<le> float_sub now (start_time st) \<and> float_sub now (start_time st) = 0
      then Some ZeroDivisionError else None)"
  by (simp add: chunk_step_def file_write_def show_status_exn Let_def)

lemma chunk_step_trace:
  "exn st = None \<Longrightarrow>
   trace (chunk_step st (chunk, now)) =
     trace st @
       (if displayed_time st \<le> float_sub now (start_time st) then
          (if float_sub now (start_time st) = 0 then []
           else [Print (float_sub now (start_time st))
                   (Progress (downloaded_bytes st + int (length chunk)) (content_length st)
                      (if 0 < size_py st
                       then percent_text (downloaded_bytes st + int (length chunk)) (size_py st)
                       else percent st)
                      (float_div (int_to_float (downloaded_bytes st + int (length chunk)))
                         (float_sub now (start_time st)))),
                 Write chunk])
        else [Write chunk])"
  by (simp add: chunk_step_def file_write_def show_status_exn show_status_trace Let_def)

lemma chunk_loop_exn: "exn st \<noteq> None \<Longrightarrow> chunk_loop st as = st"
  by (cases as) auto

lemma chunk_loop_same:
  "start_time (chunk_loop st as) = start_time st"
  "size_py (chunk_loop st as) = size_py st"
  "content_length (chunk_loop st as) = content_length st"
  "manager (chunk_loop st as) = manager st"
  by (induction as arbitrary: st; simp add: chunk_step_same)+

lemma chunk_loop_append:
  "chunk_loop st (as @ bs) = chunk_loop (chunk_loop st as) bs"
  by (induction as arbitrary: st) (simp_all add: chunk_loop_exn)

lemma chunk_loop_finished:
  "exn st = None \<Longrightarrow> exn (chunk_loop st as) = None \<Longrightarrow>
   downloaded_bytes (chunk_loop st as) =
     downloaded_bytes st + (\<Sum>a\<leftarrow>as. int (length (fst a))) \<and>
   written (trace (chunk_loop st as)) = written (trace st) @ concat (map fst as)"
proof (induction as arbitrary: st)
  case Nil
  then show ?case by simp
next
  case (Cons a as)
  obtain chunk now where a: "a = (chunk, now)" by (cases a)
  have ok: "exn (chunk_step st a) = None"
  proof (rule ccontr)
    assume "exn (chunk_step st a) \<noteq> None"
    then have "chunk_loop (chunk_step st a) as = chunk_step st a"
      by (rule chunk_loop_exn)
    with Cons.prems \<open>exn (chunk_step st a) \<noteq> None\<close> show False by simp
  qed
  from Cons.prems have fin: "exn (chunk_loop (chunk_step st a) as) = None" by simp
  have tr: "written (trace (chunk_step st a)) = written (trace st) @ chunk"
    using Cons.prems(1) ok unfolding a
    by (auto simp: chunk_step_trace chunk_step_exn written_append split: if_splits)
  from Cons.IH [OF ok fin] tr Cons.prems(1) show ?case
    by (simp add: a chunk_step_downloaded_bytes)
qed

subsection \<open>The whole function\<close>

lemma read_content_length_same:
  "trace (read_content_length r st) = trace st"
  "manager (read_content_length r st) = manager st"
  "start_time (read_content_length r st) = start_time st"
  "downloaded_bytes (read_content_length r st) = downloaded_bytes st"
  "displayed_time (read_content_length r st) = displayed_time st"
  "percent (read_content_length r st) = percent st"
  by (simp_all add: read_content_length_def Let_def split: option.split sum.split)

lemma final_status_same:
  "manager (final_status e f st) = manager st"
  "downloaded_bytes (final_status e f st) = downloaded_bytes st"
  "size_py (final_status e f st) = size_py st"
  "progress_lines (trace (final_status e f st)) = progress_lines (trace st)"
  "written (trace (final_status e f st)) = written (trace st)"
  by (simp_all add: final_status_def py_truediv_def Let_def progress_lines_append written_append)

lemma final_status_summary:
  "exn (final_status e f st) = None \<Longrightarrow>
   summary_lines (trace (final_status e f st)) =
     summary_lines (trace st) @
       [(downloaded_bytes st, float_sub (time_at_end e) (start_time st),
         float_div (int_to_float (downloaded_bytes st)) (float_sub (time_at_end e) (start_time st)))]"
  by (simp add: final_status_def py_truediv_def Let_def summary_lines_append split: if_splits)

lemma chunk_step_summary:
  "exn st = None \<Longrightarrow> summary_lines (trace (chunk_step st a)) = summary_lines (trace st)"
  by (cases a) (simp add: chunk_step_trace summary_lines_append)

lemma chunk_loop_summary:
  "summary_lines (trace (chunk_loop st as)) = summary_lines (trace st)"
  by (induction as arbitrary: st) (simp_all add: chunk_step_summary)

lemma length_concat_chunks:
  "int (length (concat (map fst as))) = (\<Sum>a\<leftarrow>as. int (length (fst a)))"
  by (induction as) simp_all

text \<open>The shape of a run that returns.\<close>

lemma download_returns:
  assumes "request e url = Inr r"
    and "exn (download_with_speed e url custom_tos output) = None"
  obtains st1 st2 where
    "st1 = (read_content_length r (initial_state e custom_tos))
             \<lparr>trace := [Open (filename_of url output)]\<rparr>"
    "exn st1 = None"
    "st2 = chunk_loop st1 (stream r)"
    "exn st2 = None"
    "download_with_speed e url custom_tos output = final_status e (filename_of url output) st2"
proof -
  let ?st0 = "read_content_length r (initial_state e custom_tos)"
  have tr: "trace ?st0 = []"
    by (simp add: read_content_length_same initial_state_def)
  let ?st1 = "?st0\<lparr>trace := [Open (filename_of url output)]\<rparr>"
  from assms have a: "exn ?st0 = None"
    by (auto simp: download_with_speed_def Let_def split: if_splits)
  from assms a have b: "exn (chunk_loop ?st1 (stream r)) = None"
    by (auto simp: download_with_speed_def Let_def tr split: if_splits)
  from assms a b have c: "download_with_speed e url custom_tos output
      = final_status e (filename_of url output) (chunk_loop ?st1 (stream r))"
    by (auto simp: download_with_speed_def Let_def tr split: if_splits)
  from a have "exn ?st1 = None" by simp
  with b c that show thesis by blast
qed

lemma download_manager:
  "manager (download_with_speed e url custom_tos output) = set_custom_tos custom_tos PoolManager"
  by (simp add: download_with_speed_def Let_def final_status_same chunk_loop_same
      read_content_length_same initial_state_def split: sum.split)

lemma chunk_loop_mono: "downloaded_bytes st \<le> downloaded_bytes (chunk_loop st as)"
proof (induction as arbitrary: st)
  case Nil
  show ?case by simp
next
  case (Cons a as)
  obtain chunk now where a: "a = (chunk, now)" by (cases a)
  have "downloaded_bytes st \<le> downloaded_bytes (chunk_step st a)"
    by (simp add: a chunk_step_downloaded_bytes)
  also have "\<dots> \<le> downloaded_bytes (chunk_loop (chunk_step st a) as)"
    by (rule Cons.IH)
  finally show ?case by simp
qed

lemma basename_after_slash:
  "CHR ''/'' \<notin> set name \<Longrightarrow> basename (prefix @ ''/'' @ name) = name"
proof -
  assume "CHR ''/'' \<notin> set name"
  then have "takeWhile (\<lambda>c. c \<noteq> CHR ''/'') (rev name @ CHR ''/'' # rev prefix) = rev name"
    by (subst takeWhile_append2) auto
  then show ?thesis by (simp add: basename_def)
qed

subsection \<open>Invariants of the loop\<close>

lemma chunk_step_progress:
  "exn st = None \<Longrightarrow>
   progress_lines (trace (chunk_step st (chunk, now))) =
     progress_lines (trace st) @
       (if displayed_time st \<le> float_sub now (start_time st) \<and> float_sub now (start_time st) \<noteq> 0
        then [(float_sub now (start_time st),
               downloaded_bytes st + int (length chunk),
               content_length st,
               (if 0 < size_py st
                then percent_text (downloaded_bytes st + int (length chunk)) (size_py st)
                else percent st),
               float_div (int_to_float (downloaded_bytes st + int (length chunk)))
                 (float_sub now (start_time st)))]
        else [])"
  by (simp add: chunk_step_trace progress_lines_append)

lemma chunk_step_displayed_time:
  "exn st = None \<Longrightarrow>
   displayed_time (chunk_step st (chunk, now)) =
     (if displayed_time st \<le> float_sub now (start_time st) \<and> float_sub now (start_time st) \<noteq> 0
      then float_add (float_sub now (start_time st)) (1 / 2) else displayed_time st)"
  by (simp add: chunk_step_def file_write_def show_status_exn show_status_displayed_time Let_def)

lemma chunk_step_percent:
  "exn st = None \<Longrightarrow>
   percent (chunk_step st (chunk, now)) =
     (if displayed_time st \<le> float_sub now (start_time st) \<and> 0 < size_py st
      then percent_text (downloaded_bytes st + int (length chunk)) (size_py st)
      else percent st)"
  by (simp add: chunk_step_def file_write_def show_status_exn show_status_percent Let_def)

lemma chunk_step_cadence:
  assumes "cadence st" and "exn st = None"
  shows "cadence (chunk_step st (chunk, now))"
proof (cases "displayed_time st \<le> float_sub now (start_time st) \<and> float_sub now (start_time st) \<noteq> 0")
  case False
  have "progress_lines (trace (chunk_step st (chunk, now))) = progress_lines (trace st)"
    using assms(2) False by (subst chunk_step_progress) (simp_all only: if_False if_not_P append_Nil2)
  moreover have "displayed_time (chunk_step st (chunk, now)) = displayed_time st"
    using assms(2) False by (subst chunk_step_displayed_time) (simp_all only: if_False if_not_P)
  ultimately show ?thesis
    using assms(1) by (simp add: cadence_def progress_times_def)
next
  case True
  let ?t = "float_sub now (start_time st)"
  let ?ts = "progress_times (trace st)"
  from assms(1) have s: "successively (\<lambda>a b. float_add a (1 / 2) \<le> b) ?ts"
    and old: "\<forall>t\<in>set ?ts. 0 < t"
    and d: "displayed_time st = (if ?ts = [] then 0 else float_add (last ?ts) (1 / 2))"
    by (simp_all add: cadence_def)
  have d0: "0 \<le> displayed_time st"
  proof (cases "?ts = []")
    case True
    with d show ?thesis by simp
  next
    case False
    then have "last ?ts \<in> set ?ts" by simp
    with old have "0 < last ?ts" by blast
    then have "0 \<le> fl (last ?ts + 1 / 2)" by (intro fl_nonneg) simp
    with d False show ?thesis by (simp add: float_add_def)
  qed
  from \<open>displayed_time st \<le> ?t \<and> ?t \<noteq> 0\<close> d0 have pos: "0 < ?t" by simp
  have ts': "progress_times (trace (chunk_step st (chunk, now))) = ?ts @ [?t]"
    using \<open>displayed_time st \<le> ?t \<and> ?t \<noteq> 0\<close> assms(2)
    by (simp add: progress_times_def chunk_step_progress)
  have d': "displayed_time (chunk_step st (chunk, now)) = float_add ?t (1 / 2)"
    using \<open>displayed_time st \<le> ?t \<and> ?t \<noteq> 0\<close> assms(2)
    by (simp add: chunk_step_displayed_time)
  have last: "?ts \<noteq> [] \<Longrightarrow> float_add (last ?ts) (1 / 2) \<le> ?t"
    using d \<open>displayed_time st \<le> ?t \<and> ?t \<noteq> 0\<close> by simp
  have s': "successively (\<lambda>a b. float_add a (1 / 2) \<le> b) (?ts @ [?t])"
    using s last by (auto simp: successively_append_iff)
  from s' old pos show ?thesis
    unfolding cadence_def ts' d' by simp
qed

lemma chunk_loop_cadence: "cadence st \<Longrightarrow> cadence (chunk_loop st as)"
proof (induction as arbitrary: st)
  case Nil
  then show ?case by simp
next
  case (Cons a as)
  obtain chunk now where a: "a = (chunk, now)" by (cases a)
  show ?case
  proof (cases "exn st = None")
    case True
    from chunk_step_cadence [OF Cons.prems True] have "cadence (chunk_step st a)"
      by (simp add: a)
    from Cons.IH [OF this] True show ?thesis by simp
  next
    case False
    with Cons.prems show ?thesis by auto
  qed
qed

lemma chunk_step_size_unknown:
  assumes "size_unknown st" and "exn st = None"
  shows "size_unknown (chunk_step st (chunk, now))"
  using assms
  by (auto simp: size_unknown_def percent_fields_def chunk_step_progress chunk_step_percent
      chunk_step_same)

lemma chunk_loop_size_unknown: "size_unknown st \<Longrightarrow> size_unknown (chunk_loop st as)"
proof (induction as arbitrary: st)
  case Nil
  then show ?case by simp
next
  case (Cons a as)
  obtain chunk now where a: "a = (chunk, now)" by (cases a)
  show ?case
  proof (cases "exn st = None")
    case True
    from chunk_step_size_unknown [OF Cons.prems True] have "size_unknown (chunk_step st a)"
      by (simp add: a)
    from Cons.IH [OF this] True show ?thesis by simp
  next
    case False
    with Cons.prems show ?thesis by auto
  qed
qed

text \<open>
  Every progress line of a run is printed by the loop, which starts from the state the
  headers leave, with the destination file open.
\<close>

lemma download_progress_lines:
  assumes "P []"
    and "\<And>r st. request e url = Inr r \<Longrightarrow>
           st = (read_content_length r (initial_state e custom_tos))
                  \<lparr>trace := [Open (filename_of url output)]\<rparr> \<Longrightarrow>
           P (progress_lines (trace (chunk_loop st (stream r))))"
  shows "P (progress_lines (trace (download_with_speed e url custom_tos output)))"
proof (cases "request e url")
  case (Inl err)
  with assms(1) show ?thesis
    by (simp add: download_with_speed_def initial_state_def)
next
  case (Inr r)
  let ?st0 = "read_content_length r (initial_state e custom_tos)"
  have tr: "trace ?st0 = []"
    by (simp add: read_content_length_same initial_state_def)
  from assms(2) [OF Inr refl]
  have "P (progress_lines (trace (chunk_loop
            (?st0\<lparr>trace := [Open (filename_of url output)]\<rparr>) (stream r))))" .
  with assms(1) Inr tr show ?thesis
    by (simp add: download_with_speed_def Let_def final_status_same)
qed

lemma percent_quarter: "percent_text 250 1000 = '' 25%''"
  by code_simp

lemma py_int_zero: "py_int ''0'' = Inr 0"
  by code_simp

lemma final_status_content_length:
  "content_length (final_status e f st) = content_length st"
  by (simp add: final_status_def py_truediv_def Let_def)

lemma download_size:
  assumes "request e url = Inr r"
  shows "size_py (download_with_speed e url custom_tos output)
           = size_py (read_content_length r (initial_state e custom_tos))"
    and "content_length (download_with_speed e url custom_tos output)
           = content_length (read_content_length r (initial_state e custom_tos))"
  using assms
  by (simp_all add: download_with_speed_def Let_def final_status_same final_status_content_length chunk_loop_same)

lemma size_unknown_start:
  assumes "size_py (read_content_length r (initial_state e custom_tos)) \<le> 0"
  shows "size_unknown ((read_content_length r (initial_state e custom_tos))\<lparr>trace := [Open f]\<rparr>)"
  using assms
  by (simp add: size_unknown_def percent_fields_def read_content_length_same initial_state_def)

lemma unknown_size_percent:
  assumes "request e url = Inr r"
    and "size_py (read_content_length r (initial_state e custom_tos)) \<le> 0"
  shows "\<forall>p\<in>set (percent_fields (trace (download_with_speed e url custom_tos output))).
           p = '' ??%''"
  unfolding percent_fields_def
proof (rule download_progress_lines)
  show "\<forall>p\<in>set (map (\<lambda>(t, d, c, p, s). p) []). p = '' ??%''" by simp
next
  fix r' st
  assume r': "request e url = Inr r'"
    and st: "st = (read_content_length r' (initial_state e custom_tos))
                    \<lparr>trace := [Open (filename_of url output)]\<rparr>"
  from r' assms(1) have "r' = r" by simp
  with st assms(2) have "size_unknown st"
    by (simp add: size_unknown_start)
  then have "size_unknown (chunk_loop st (stream r'))"
    by (rule chunk_loop_size_unknown)
  then show "\<forall>p\<in>set (map (\<lambda>(t, d, c, p, s). p)
                (progress_lines (trace (chunk_loop st (stream r'))))). p = '' ??%''"
    by (simp add: size_unknown_def percent_fields_def)
qed

lemma cadence_start:
  "cadence ((read_content_length r (initial_state e custom_tos))\<lparr>trace := [Open f]\<rparr>)"
  by (simp add: cadence_def progress_times_def read_content_length_same initial_state_def)

lemma download_cadence:
  "successively (\<lambda>a b. float_add a (1 / 2) \<le> b)
     (progress_times (trace (download_with_speed e url custom_tos output)))
   \<and> (\<forall>t\<in>set (progress_times (trace (download_with_speed e url custom_tos output))). 0 < t)"
  unfolding progress_times_def
proof (rule download_progress_lines)
  show "successively (\<lambda>a b. float_add a (1 / 2) \<le> b) (map fst []) \<and> (\<forall>t\<in>set (map fst []). (0::rat) < t)"
    by simp
next
  fix r st
  assume "st = (read_content_length r (initial_state e custom_tos))
                 \<lparr>trace := [Open (filename_of url output)]\<rparr>"
  then have "cadence st" by (simp add: cadence_start)
  then have "cadence (chunk_loop st (stream r))" by (rule chunk_loop_cadence)
  then show "successively (\<lambda>a b. float_add a (1 / 2) \<le> b)
               (map fst (progress_lines (trace (chunk_loop st (stream r)))))
           \<and> (\<forall>t\<in>set (map fst (progress_lines (trace (chunk_loop st (stream r))))). 0 < t)"
    by (simp add: cadence_def progress_times_def)
qed

lemma cadence_exact:
  assumes "successively (\<lambda>a b. float_add a (1 / 2) \<le> b) ts" and "\<forall>t\<in>set ts. 0 < t"
  shows "successively (\<lambda>a b. float_add a (1 / 2) \<le> b \<and> (a + 1 / 2) * (1 - 1 / 2 ^ 53) \<le> b) ts"
  using assms
proof (induction ts rule: induct_list012)
  case 1
  show ?case by simp
next
  case (2 x)
  show ?case by simp
next
  case (3 x y zs)
  from "3.prems" have "0 \<le> x" by simp
  then have "(x + 1 / 2) * (1 - 1 / 2 ^ 53) \<le> float_add x (1 / 2)"
    by (rule float_add_half_lower)
  with 3 show ?case by simp
qed

lemma chunk_loop_completes:
  "exn st = None \<Longrightarrow> \<forall>a\<in>set as. float_sub (snd a) (start_time st) \<noteq> 0 \<Longrightarrow>
   exn (chunk_loop st as) = None"
proof (induction as arbitrary: st)
  case Nil
  then show ?case by simp
next
  case (Cons a as)
  obtain chunk now where a: "a = (chunk, now)" by (cases a)
  from Cons.prems have "exn (chunk_step st a) = None"
    by (simp add: a chunk_step_exn)
  moreover from Cons.prems
  have "\<forall>b\<in>set as. float_sub (snd b) (start_time (chunk_step st a)) \<noteq> 0"
    by (simp add: chunk_step_same)
  ultimately have "exn (chunk_loop (chunk_step st a) as) = None"
    by (rule Cons.IH)
  with Cons.prems(1) show ?case by simp
qed

text \<open>
  A run returns when the request is answered, the declared size (if any) is an
  integer literal, the destination file can be opened, and no elapsed time computed
  from a clock reading taken after the start is zero.
\<close>

lemma download_completes:
  assumes "request e url = Inr r"
    and "headers r ''Content-Length'' = None
         \<or> (\<exists>v n. headers r ''Content-Length'' = Some v \<and> py_int v = Inr n)"
    and "filename_of url output \<noteq> []" and "can_open e (filename_of url output)"
    and "\<forall>a\<in>set (stream r). float_sub (snd a) (time_at_start e) \<noteq> 0"
    and "float_sub (time_at_end e) (time_at_start e) \<noteq> 0"
  shows "exn (download_with_speed e url custom_tos output) = None"
proof -
  let ?st0 = "read_content_length r (initial_state e custom_tos)"
  let ?st1 = "?st0\<lparr>trace := trace ?st0 @ [Open (filename_of url output)]\<rparr>"
  from assms(2) have a: "exn ?st0 = None"
    by (auto simp: read_content_length_def initial_state_def Let_def)
  have s: "start_time ?st1 = time_at_start e"
    by (simp add: read_content_length_same initial_state_def)
  from a have "exn ?st1 = None" by simp
  moreover from assms(5) s
  have "\<forall>a\<in>set (stream r). float_sub (snd a) (start_time ?st1) \<noteq> 0" by simp
  ultimately have b: "exn (chunk_loop ?st1 (stream r)) = None"
    by (rule chunk_loop_completes)
  have "start_time (chunk_loop ?st1 (stream r)) = time_at_start e"
    by (simp add: chunk_loop_same s)
  with b assms(6) have "exn (final_status e (filename_of url output) (chunk_loop ?st1 (stream r))) = None"
    by (simp add: final_status_def py_truediv_def Let_def)
  with assms(1,3,4) a b show ?thesis
    by (simp add: download_with_speed_def Let_def)
qed

subsection \<open>Throughput at zero elapsed time\<close>

text \<open>
  C1. The claim: every throughput computation of a run, the one of the final summary
  included, is defined and does not crash when the elapsed time is exactly zero. The
  function divides by the elapsed time without a guard, at line 59 and at line 69.
  On an empty body with equal clock readings at the start and at the end, the run ends
  in \<^verbatim>\<open>ZeroDivisionError\<close> and prints no summary line; on a first chunk handled at the
  starting clock reading, it ends in \<^verbatim>\<open>ZeroDivisionError\<close> inside the loop, after the
  chunk was counted and before it is written.
\<close>

theorem zero_elapsed_time_raises:
  "exn (download_with_speed instant_env ''http://example.com/empty.bin'' None None)
     = Some ZeroDivisionError
   \<and> summary_lines
       (trace (download_with_speed instant_env ''http://example.com/empty.bin'' None None)) = []
   \<and> exn (download_with_speed fast_chunk_env ''http://example.com/abc.bin'' None None)
     = Some ZeroDivisionError
   \<and> trace (download_with_speed fast_chunk_env ''http://example.com/abc.bin'' None None)
     = [Open ''abc.bin'']
   \<and> downloaded_bytes
       (download_with_speed fast_chunk_env ''http://example.com/abc.bin'' None None) = 3"
  by code_simp

subsection \<open>Byte count\<close>

text \<open>
  C2. For a response body delivered as a sequence of chunks, after the chunk loop has
  finished the counter \<^verbatim>\<open>downloaded_bytes\<close> equals the sum of the lengths of the chunks
  written to the file, which is the size of the body, and the final summary line reports
  that number. Stated for every run that returns: the bytes written are the chunks in
  order, the counter is the sum of their lengths, and the one summary line printed
  carries the counter.
\<close>

theorem byte_count_accuracy:
  assumes "request e url = Inr r"
    and "exn (download_with_speed e url custom_tos output) = None"
  shows "written (trace (download_with_speed e url custom_tos output))
           = concat (map fst (stream r))
       \<and> downloaded_bytes (download_with_speed e url custom_tos output)
           = (\<Sum>a\<leftarrow>stream r. int (length (fst a)))
       \<and> downloaded_bytes (download_with_speed e url custom_tos output)
           = int (length (concat (map fst (stream r))))
       \<and> map fst (summary_lines (trace (download_with_speed e url custom_tos output)))
           = [int (length (concat (map fst (stream r))))]"
proof -
  from assms obtain st1 st2 where
    st1: "st1 = (read_content_length r (initial_state e custom_tos))
             \<lparr>trace := [Open (filename_of url output)]\<rparr>"
    and ok1: "exn st1 = None"
    and st2: "st2 = chunk_loop st1 (stream r)"
    and ok2: "exn st2 = None"
    and res: "download_with_speed e url custom_tos output
                = final_status e (filename_of url output) st2"
    by (rule download_returns)
  have d1: "downloaded_bytes st1 = 0" and w1: "written (trace st1) = []"
    and s1: "summary_lines (trace st1) = []"
    by (simp_all add: st1 read_content_length_same initial_state_def)
  from chunk_loop_finished [OF ok1 ok2 [unfolded st2]] d1 w1
  have d2: "downloaded_bytes st2 = (\<Sum>a\<leftarrow>stream r. int (length (fst a)))"
    and w2: "written (trace st2) = concat (map fst (stream r))"
    by (simp_all add: st2)
  have len: "int (length (concat (map fst (stream r)))) = (\<Sum>a\<leftarrow>stream r. int (length (fst a)))"
    by (rule length_concat_chunks)
  have s2: "summary_lines (trace st2) = []"
    by (simp add: st2 chunk_loop_summary s1)
  from ok2 res assms(2) have "exn (final_status e (filename_of url output) st2) = None"
    by simp
  from final_status_summary [OF this] s2 d2 len
  have "map fst (summary_lines (trace (final_status e (filename_of url output) st2)))
          = [int (length (concat (map fst (stream r))))]"
    by simp
  with d2 w2 len show ?thesis
    by (simp add: res final_status_same)
qed

theorem byte_count_accuracy_witness:
  "request sample_env ''http://example.com/files/name.ext'' = Inr seven_bytes
   \<and> exn (download_with_speed sample_env ''http://example.com/files/name.ext'' (Some 16) None) = None
   \<and> written (trace (download_with_speed sample_env ''http://example.com/files/name.ext'' (Some 16) None))
       = ''abcdefg''
   \<and> downloaded_bytes (download_with_speed sample_env ''http://example.com/files/name.ext'' (Some 16) None)
       = 7
   \<and> map fst (summary_lines (trace (download_with_speed sample_env ''http://example.com/files/name.ext'' (Some 16) None)))
       = [7]"
proof -
  have h1: "request sample_env ''http://example.com/files/name.ext'' = Inr seven_bytes"
    by (simp add: sample_env_def)
  have h2: "exn (download_with_speed sample_env ''http://example.com/files/name.ext'' (Some 16) None) = None"
    by code_simp
  have s: "stream seven_bytes = [(''abc'', 801 / 8), (''def'', 401 / 4), (''g'', 101)]"
    by (simp add: seven_bytes_def)
  from byte_count_accuracy [OF h1 h2] h1 h2 show ?thesis
    by (simp add: s)
qed

subsection \<open>The socket option\<close>

text \<open>
  C3. For every call, the keywords of the connection pool hold the socket option
  \<open>(IPPROTO_IP, IP_TOS, t)\<close> exactly when the marking \<open>t\<close> was supplied
  (\<^verbatim>\<open>custom_tos is not None\<close>); without a marking no socket option is set (the pool
  keeps no keyword at all). This holds however the run ends.
\<close>

theorem socket_option_application:
  "connection_pool_kw (manager (download_with_speed e url custom_tos output)) ''socket_options''
     = map_option (\<lambda>t. [(IPPROTO_IP, IP_TOS, t)]) custom_tos
   \<and> ((\<exists>opts. connection_pool_kw (manager (download_with_speed e url custom_tos output))
                 ''socket_options'' = Some opts
              \<and> (IPPROTO_IP, IP_TOS, t) \<in> set opts)
        = (custom_tos = Some t))
   \<and> (custom_tos = None \<longrightarrow>
        connection_pool_kw (manager (download_with_speed e url custom_tos output)) = Map.empty)"
  by (cases custom_tos) (auto simp: download_manager set_custom_tos_def PoolManager_def)

theorem socket_option_application_witness:
  "connection_pool_kw
     (manager (download_with_speed sample_env ''http://example.com/files/name.ext'' (Some 16) None))
     ''socket_options'' = Some [(IPPROTO_IP, IP_TOS, 16)]
   \<and> connection_pool_kw
     (manager (download_with_speed sample_env ''http://example.com/files/name.ext'' None None))
     = Map.empty"
  using socket_option_application
      [of sample_env "''http://example.com/files/name.ext''" "Some 16" None 16]
    socket_option_application
      [of sample_env "''http://example.com/files/name.ext''" None None 16]
  by simp

subsection \<open>The destination file name\<close>

text \<open>
  C4, as amended. The claim speaks of every URL whose path ends in a last component
  \<^verbatim>\<open>name.ext\<close>. The function takes \<^verbatim>\<open>os.path.basename\<close> of the whole URL string, so
  what holds is: when the URL string itself ends in a slash followed by a name without
  a slash (there is no query or fragment after the path), and no output file name is
  given, the destination file name is exactly that name.
\<close>

theorem filename_derivation:
  "CHR ''/'' \<notin> set name \<Longrightarrow> filename_of (prefix @ ''/'' @ name) None = name"
  by (simp add: filename_of_def basename_after_slash del: append.simps)

theorem filename_derivation_witness:
  "CHR ''/'' \<notin> set ''name.ext''
   \<and> filename_of (''http://example.com/files'' @ ''/'' @ ''name.ext'') None = ''name.ext''"
proof -
  have h: "CHR ''/'' \<notin> set ''name.ext''" by simp
  from filename_derivation [OF h, of "''http://example.com/files''"] h show ?thesis
    by blast
qed

text \<open>
  The claim as stated fails on a URL with a query: its path ends in \<^verbatim>\<open>name.ext\<close>,
  and the file name derived from it is \<^verbatim>\<open>name.ext?token=abc\<close>.
\<close>

theorem filename_derivation_counterexample:
  "url_upto_query ''http://example.com/files/name.ext?token=abc''
     = ''http://example.com/files'' @ ''/'' @ ''name.ext''
   \<and> filename_of ''http://example.com/files/name.ext?token=abc'' None = ''name.ext?token=abc''
   \<and> filename_of ''http://example.com/files/name.ext?token=abc'' None \<noteq> ''name.ext''"
  by (simp add: url_upto_query_def filename_of_def basename_def)

text \<open>
  C9. When the output argument is supplied but is the empty string, the destination
  file name is the base name of the URL, and the whole run is the run without an output
  argument.
\<close>

theorem empty_output_is_absent:
  "filename_of url (Some '''') = basename url
   \<and> filename_of url (Some '''') = filename_of url None
   \<and> download_with_speed e url custom_tos (Some '''')
       = download_with_speed e url custom_tos None"
proof -
  have eq: "filename_of url (Some '''') = filename_of url None"
    by (simp add: filename_of_def)
  have "download_with_speed e url custom_tos (Some '''')
          = download_with_speed e url custom_tos None"
    unfolding download_with_speed_def eq ..
  with eq show ?thesis by (simp add: filename_of_def)
qed

subsection \<open>The byte counter never decreases\<close>

text \<open>
  C8. The counter \<^verbatim>\<open>downloaded_bytes\<close> starts at zero; reading the headers does not
  touch it; an iteration of the loop adds the length of its chunk, which is not
  negative; the counter after any number of iterations is at most the counter after
  more of them; the final report leaves it as it is.
\<close>

theorem counter_monotone:
  "downloaded_bytes (initial_state e custom_tos) = 0
   \<and> downloaded_bytes (read_content_length r st) = downloaded_bytes st
   \<and> downloaded_bytes st \<le> downloaded_bytes (chunk_step st a)
   \<and> (m \<le> n \<longrightarrow>
        downloaded_bytes (chunk_loop st (take m as)) \<le> downloaded_bytes (chunk_loop st (take n as)))
   \<and> downloaded_bytes (final_status e f st) = downloaded_bytes st"
proof -
  have step: "downloaded_bytes st \<le> downloaded_bytes (chunk_step st a)"
    by (cases a) (simp add: chunk_step_downloaded_bytes)
  have loop: "downloaded_bytes (chunk_loop st (take m as))
                \<le> downloaded_bytes (chunk_loop st (take n as))" if "m \<le> n"
  proof -
    from that have "take n as = take m as @ drop m (take n as)"
      by (metis append_take_drop_id min.absorb1 take_take)
    then have "chunk_loop st (take n as)
        = chunk_loop (chunk_loop st (take m as)) (drop m (take n as))"
      by (metis chunk_loop_append)
    then show ?thesis by (simp add: chunk_loop_mono)
  qed
  from step loop show ?thesis
    by (simp add: initial_state_def read_content_length_same final_status_same)
qed

theorem counter_monotone_witness:
  "downloaded_bytes (chunk_loop (initial_state sample_env None) (take 1 (stream seven_bytes)))
     \<le> downloaded_bytes (chunk_loop (initial_state sample_env None) (take 3 (stream seven_bytes)))
   \<and> downloaded_bytes (chunk_loop (initial_state sample_env None) (take 1 (stream seven_bytes))) = 3
   \<and> downloaded_bytes (chunk_loop (initial_state sample_env None) (take 3 (stream seven_bytes))) = 7"
proof -
  have h: "(1::nat) \<le> 3" by simp
  have a: "downloaded_bytes (chunk_loop (initial_state sample_env None) (take 1 (stream seven_bytes))) = 3"
    by code_simp
  have b: "downloaded_bytes (chunk_loop (initial_state sample_env None) (take 3 (stream seven_bytes))) = 7"
    by code_simp
  from counter_monotone [of sample_env None seven_bytes "initial_state sample_env None"
      "(''abc'', 801 / 8)" 1 3 "stream seven_bytes" "''name.ext''"] h a b
  show ?thesis by simp
qed

subsection \<open>The percentage field\<close>

text \<open>
  C5. The percentage field is the variable \<^verbatim>\<open>percent\<close>: the percentage formatted by
  \<^verbatim>\<open>3.0f\<close>, that is right-justified in three characters, and a percent sign; or,
  as long as no display has formatted one, the initial text of a blank and \<^verbatim>\<open>??%\<close>.
  A progress line printed in an iteration that starts with the declared size 1000 and
  brings the counter to 250 shows \<^verbatim>\<open>25%\<close> (after the one blank that fills the three
  characters): 250 / 1000 is the double 0.25 and 0.25 * 100 the double 25. Every progress line of a run whose response declares no size shows
  \<^verbatim>\<open>??%\<close> (after the blank of the initial text).
\<close>

theorem percentage_computation:
  "(exn st = None \<and> size_py st = 1000 \<and> downloaded_bytes st + int (length chunk) = 250 \<longrightarrow>
      percent_fields (trace (chunk_step st (chunk, now))) =
        percent_fields (trace st) @
          (if displayed_time st \<le> float_sub now (start_time st) \<and> float_sub now (start_time st) \<noteq> 0
           then ['' '' @ ''25%''] else []))
   \<and> (request e url = Inr r \<and> headers r ''Content-Length'' = None \<longrightarrow>
        (\<forall>p\<in>set (percent_fields (trace (download_with_speed e url custom_tos output))).
           p = '' '' @ ''??%''))"
proof (intro conjI impI)
  assume a: "exn st = None \<and> size_py st = 1000 \<and> downloaded_bytes st + int (length chunk) = 250"
  then have "percent_text (downloaded_bytes st + int (length chunk)) (size_py st) = '' 25%''"
    by (simp only: percent_quarter)
  with a show "percent_fields (trace (chunk_step st (chunk, now))) =
        percent_fields (trace st) @
          (if displayed_time st \<le> float_sub now (start_time st) \<and> float_sub now (start_time st) \<noteq> 0
           then ['' '' @ ''25%''] else [])"
    by (simp add: percent_fields_def chunk_step_progress)
next
  assume b: "request e url = Inr r \<and> headers r ''Content-Length'' = None"
  then have "size_py (read_content_length r (initial_state e custom_tos)) \<le> 0"
    by (simp add: read_content_length_def initial_state_def)
  with b unknown_size_percent [of e url r custom_tos "output"]
  show "\<forall>p\<in>set (percent_fields (trace (download_with_speed e url custom_tos output))).
           p = '' '' @ ''??%''"
    by simp
qed

theorem percentage_computation_witness:
  "percent_fields
     (trace (download_with_speed thousand_env ''http://example.com/files/name.ext'' None None))
     = '' 25%'' # '' 50%'' # '' 75%'' # [''100%'']
   \<and> percent_fields
     (trace (chunk_step
        ((read_content_length thousand_bytes (initial_state thousand_env None))
           \<lparr>trace := [Open ''name.ext'']\<rparr>)
        (quarter_chunk, 101)))
     = ['' 25%'']
   \<and> percent_fields
     (trace (download_with_speed no_length_env ''http://example.com/files/name.ext'' None None))
     = ['' ??%'', '' ??%'']"
proof -
  let ?st = "(read_content_length thousand_bytes (initial_state thousand_env None))
               \<lparr>trace := [Open ''name.ext'']\<rparr>"
  have h1: "exn ?st = None \<and> size_py ?st = 1000
      \<and> downloaded_bytes ?st + int (length quarter_chunk) = 250"
    by code_simp
  have t: "displayed_time ?st \<le> float_sub 101 (start_time ?st)
      \<and> float_sub 101 (start_time ?st) \<noteq> 0"
    by code_simp
  have t2: "percent_fields (trace ?st) = []"
    by code_simp
  have h2: "request no_length_env ''http://example.com/files/name.ext'' = Inr no_length
      \<and> headers no_length ''Content-Length'' = None"
    by (simp add: no_length_env_def no_length_def)
  have v: "percent_fields
     (trace (download_with_speed no_length_env ''http://example.com/files/name.ext'' None None))
     = ['' ??%'', '' ??%'']"
    by code_simp
  have w: "percent_fields
     (trace (download_with_speed thousand_env ''http://example.com/files/name.ext'' None None))
     = '' 25%'' # '' 50%'' # '' 75%'' # [''100%'']"
    by code_simp
  from percentage_computation [of ?st quarter_chunk 101 no_length_env
      "''http://example.com/files/name.ext''" no_length None None] h1 h2 t t2 v w
  show ?thesis by simp
qed

text \<open>
  C10. When the header \<^verbatim>\<open>Content-Length\<close> is present with the value \<^verbatim>\<open>0\<close>, the size
  captured is 0, the text shown after the byte count is \<^verbatim>\<open>/0\<close>, and every progress
  line of the run shows \<^verbatim>\<open>??%\<close>: the percentage is formatted only when the size is
  greater than 0.
\<close>

theorem zero_content_length:
  assumes "request e url = Inr r" and "headers r ''Content-Length'' = Some ''0''"
  shows "size_py (download_with_speed e url custom_tos output) = 0
       \<and> content_length (download_with_speed e url custom_tos output) = ''/0''
       \<and> (\<forall>p\<in>set (percent_fields (trace (download_with_speed e url custom_tos output))).
            p = '' '' @ ''??%'')"
proof -
  from assms(2) have s: "size_py (read_content_length r (initial_state e custom_tos)) = 0"
    and c: "content_length (read_content_length r (initial_state e custom_tos)) = ''/0''"
    by (simp_all add: read_content_length_def py_int_zero Let_def)
  from s have "size_py (read_content_length r (initial_state e custom_tos)) \<le> 0" by simp
  from unknown_size_percent [OF assms(1) this, of "output"] s c show ?thesis
    by (simp add: download_size [OF assms(1)])
qed

theorem zero_content_length_witness:
  "request zero_length_env ''http://example.com/files/name.ext'' = Inr zero_length
   \<and> headers zero_length ''Content-Length'' = Some ''0''
   \<and> size_py (download_with_speed zero_length_env ''http://example.com/files/name.ext'' None None) = 0
   \<and> percent_fields
       (trace (download_with_speed zero_length_env ''http://example.com/files/name.ext'' None None))
     = ['' ??%'', '' ??%'']"
proof -
  have h1: "request zero_length_env ''http://example.com/files/name.ext'' = Inr zero_length"
    by (simp add: zero_length_env_def)
  have h2: "headers zero_length ''Content-Length'' = Some ''0''"
    by (simp add: zero_length_def)
  have v: "percent_fields
       (trace (download_with_speed zero_length_env ''http://example.com/files/name.ext'' None None))
     = ['' ??%'', '' ??%'']"
    by code_simp
  from zero_content_length [OF h1 h2, of None None] h1 h2 v show ?thesis by simp
qed

subsection \<open>The order of the steps of an iteration\<close>

text \<open>
  C6, as amended. The claim puts the write of the chunk before the elapsed time and the
  progress line. The function does it the other way round: an iteration that
  completes first adds the length of the chunk to the counter, then computes the elapsed
  time and, when the display is due, prints the progress line (which shows the counter
  with the chunk added), and only then writes the chunk. So the events of an iteration
  are the progress line, if one is printed, and then the write.
\<close>

theorem iteration_order:
  assumes "exn st = None" and "exn (chunk_step st (chunk, now)) = None"
  shows "downloaded_bytes (chunk_step st (chunk, now)) = downloaded_bytes st + int (length chunk)
       \<and> trace (chunk_step st (chunk, now)) =
           trace st @
             (if displayed_time st \<le> float_sub now (start_time st)
              then [Print (float_sub now (start_time st))
                      (Progress (downloaded_bytes st + int (length chunk))
                         (content_length st)
                         (percent (chunk_step st (chunk, now)))
                         (float_div (int_to_float (downloaded_bytes st + int (length chunk)))
                         (float_sub now (start_time st))))]
              else [])
             @ [Write chunk]"
  using assms
  by (auto simp: chunk_step_downloaded_bytes chunk_step_trace chunk_step_exn chunk_step_percent
      split: if_splits)

theorem iteration_order_witness:
  "exn (initial_state sample_env None) = None
   \<and> exn (chunk_step (initial_state sample_env None) (''abc'', 801 / 8)) = None
   \<and> downloaded_bytes (chunk_step (initial_state sample_env None) (''abc'', 801 / 8)) = 3
   \<and> trace (chunk_step (initial_state sample_env None) (''abc'', 801 / 8))
       = [Print (1 / 8) (Progress 3 '''' '' ??%'' 24), Write ''abc'']"
proof -
  let ?st = "initial_state sample_env None"
  have h1: "exn ?st = None" by (simp add: initial_state_def)
  have h2: "exn (chunk_step ?st (''abc'', 801 / 8)) = None" by code_simp
  have p: "percent (chunk_step ?st (''abc'', 801 / 8)) = '' ??%''" by code_simp
  have f: "displayed_time ?st = 0" "start_time ?st = 100" "downloaded_bytes ?st = 0"
    "content_length ?st = ''''" "trace ?st = []"
    by (simp_all add: initial_state_def sample_env_def)
  have v: "float_sub (801 / 8) 100 = 1 / 8" "float_div (int_to_float 3) (1 / 8) = 24"
    by code_simp+
  from iteration_order [OF h1 h2] h1 h2 p f v show ?thesis by simp
qed

text \<open>
  The claim as stated fails on the first iteration of a run: the progress line of the
  chunk is printed before the chunk is written, and the write does not come before it.
\<close>

theorem iteration_order_counterexample:
  "trace (chunk_step (initial_state sample_env None) (''abc'', 801 / 8))
     = [Print (1 / 8) (Progress 3 '''' '' ??%'' 24), Write ''abc'']
   \<and> occurs_before (Print (1 / 8) (Progress 3 '''' '' ??%'' 24)) (Write ''abc'')
       (trace (chunk_step (initial_state sample_env None) (''abc'', 801 / 8)))
   \<and> \<not> occurs_before (Write ''abc'') (Print (1 / 8) (Progress 3 '''' '' ??%'' 24))
       (trace (chunk_step (initial_state sample_env None) (''abc'', 801 / 8)))"
  by code_simp

subsection \<open>The cadence of the progress lines\<close>

text \<open>
  C7, as amended. The claim says that the elapsed times of consecutive progress lines
  differ by at least 0.5 seconds. The function compares in floats: the next display
  time starts at 0; an iteration prints a progress line only when its elapsed time has
  reached the next display time (and is not zero, where the division raises), and then
  sets the next display time to the float sum of that elapsed time and 0.5. So the
  elapsed time of a progress line is at least the float sum of the elapsed time of the
  line before it and 0.5, which is the exact sum rounded to the nearest double: it is at
  least the exact sum less \<open>2^(-53)\<close> of it. Each progress line is at a positive elapsed
  time.
\<close>

theorem progress_cadence:
  "successively (\<lambda>a b. float_add a (1 / 2) \<le> b \<and> (a + 1 / 2) * (1 - 1 / 2 ^ 53) \<le> b)
     (progress_times (trace (download_with_speed e url custom_tos output)))
   \<and> (\<forall>t\<in>set (progress_times (trace (download_with_speed e url custom_tos output))). 0 < t)
   \<and> displayed_time (initial_state e custom_tos) = 0
   \<and> (exn st = None \<longrightarrow>
        progress_times (trace (chunk_step st (chunk, now))) =
          progress_times (trace st) @
            (if displayed_time st \<le> float_sub now (start_time st)
                \<and> float_sub now (start_time st) \<noteq> 0
             then [float_sub now (start_time st)] else [])
        \<and> displayed_time (chunk_step st (chunk, now)) =
            (if displayed_time st \<le> float_sub now (start_time st)
                \<and> float_sub now (start_time st) \<noteq> 0
             then float_add (float_sub now (start_time st)) (1 / 2) else displayed_time st))"
proof -
  have step: "progress_times (trace (chunk_step st (chunk, now))) =
          progress_times (trace st) @
            (if displayed_time st \<le> float_sub now (start_time st)
                \<and> float_sub now (start_time st) \<noteq> 0
             then [float_sub now (start_time st)] else [])" if "exn st = None"
    using that by (simp add: progress_times_def chunk_step_progress)
  let ?ts = "progress_times (trace (download_with_speed e url custom_tos output))"
  from download_cadence [of e url custom_tos "output"]
  have s: "successively (\<lambda>a b. float_add a (1 / 2) \<le> b) ?ts" and pos: "\<forall>t\<in>set ?ts. 0 < t"
    by simp_all
  then have "successively
               (\<lambda>a b. float_add a (1 / 2) \<le> b \<and> (a + 1 / 2) * (1 - 1 / 2 ^ 53) \<le> b) ?ts"
    by (rule cadence_exact)
  with step pos show ?thesis
    by (simp add: initial_state_def chunk_step_displayed_time)
qed

theorem progress_cadence_witness:
  "progress_times
     (trace (download_with_speed sample_env ''http://example.com/files/name.ext'' None None))
     = [1 / 8, 1]
   \<and> float_add (1 / 8) (1 / 2) = 5 / 8
   \<and> progress_times (trace (chunk_step (initial_state sample_env None) (''abc'', 801 / 8)))
     = [1 / 8]
   \<and> displayed_time (chunk_step (initial_state sample_env None) (''abc'', 801 / 8)) = 5 / 8"
proof -
  let ?st = "initial_state sample_env None"
  have v: "progress_times
     (trace (download_with_speed sample_env ''http://example.com/files/name.ext'' None None))
     = [1 / 8, 1]"
    by code_simp
  have h: "exn ?st = None" "displayed_time ?st = 0" "start_time ?st = 100"
    "progress_times (trace ?st) = []"
    by (simp_all add: initial_state_def sample_env_def progress_times_def)
  have f: "float_sub (801 / 8) 100 = 1 / 8" "float_add (1 / 8) (1 / 2) = 5 / 8"
    by code_simp+
  from progress_cadence [of sample_env "''http://example.com/files/name.ext''" None None
      ?st "''abc''" "801 / 8"] v h f
  show ?thesis by simp
qed

text \<open>
  The claim as stated fails on a simulated clock that starts at 0.0 and is read at 0.2
  and at 0.7: the float sum 0.2 + 0.5 is the double 0.7, so the second progress line is
  printed, at an elapsed time that is less than 0.5 after the first.
\<close>

theorem progress_cadence_counterexample:
  "progress_times
     (trace (download_with_speed simulated_env ''http://example.com/files/name.ext'' None None))
     = [3602879701896397 / 18014398509481984, 3152519739159347 / 4503599627370496]
   \<and> (3152519739159347 / 4503599627370496 :: rat) - 3602879701896397 / 18014398509481984
       < 1 / 2
   \<and> \<not> successively (\<lambda>a b. a + 1 / 2 \<le> b)
       (progress_times
          (trace (download_with_speed simulated_env ''http://example.com/files/name.ext''
             None None)))"
  by code_simp

end
